theory Spec2Isabelle
  imports Main "HOL-Library.Word"
begin

section \<open>The contract DVPNShareFHE (contracts/dvpnFHE\_Share.sol)\<close>

subsection \<open>Value types\<close>

type_synonym address = "160 word"
type_synonym uint256 = "256 word"
type_synonym bytes32 = "256 word"
type_synonym bytes = "8 word list"

text \<open>
  An \<open>euint32\<close> is a handle of the FHE library: a 32-byte value whose zero value is
  what an unwritten storage slot holds.
\<close>

type_synonym euint32 = "256 word"

subsection \<open>Errors and events\<close>

text \<open>
  The nine custom errors of the contract, and the two reverts of the language itself
  that its code can reach: the checked addition of Solidity 0.8 (\<open>Panic(0x11)\<close>) and
  \<open>abi.decode\<close> on too short an input.
\<close>

datatype error =
    NotOwner
  | NotProvider
  | Paused
  | CooldownActive
  | BatchClosedOrDoesNotExist
  | InvalidParameter
  | ReplayAttempt
  | StateMismatch
  | DecryptionFailed
  | PanicOverflow
  | AbiDecodeRevert

datatype event =
    ProviderAdded address
  | ProviderRemoved address
  | PausedEvent address
  | Unpaused address
  | CooldownSecondsChanged uint256 uint256
  | BatchOpened uint256
  | BatchClosed uint256 uint256
  | BandwidthContributed address uint256 bytes32
  | DecryptionRequested uint256 uint256 bytes32
  | DecryptionCompleted uint256 uint256 uint256

subsection \<open>Storage\<close>

record DecryptionContext =
  batchId :: uint256
  stateHash :: bytes32
  processed :: bool

record Batch =
  exists :: bool
  closed :: bool
  totalEncryptedBandwidth :: euint32

text \<open>
  The storage of the contract, field by field, and the log of the events emitted so far
  (oldest first). A mapping of Solidity is total: a key never written reads as the zero
  value of its type.
\<close>

record state =
  isProvider :: "address \<Rightarrow> bool"
  batches :: "uint256 \<Rightarrow> Batch"
  decryptionContexts :: "uint256 \<Rightarrow> DecryptionContext"
  lastSubmissionTime :: "address \<Rightarrow> uint256"
  lastDecryptionRequestTime :: "address \<Rightarrow> uint256"
  owner :: address
  paused :: bool
  cooldownSeconds :: uint256
  events :: "event list"

subsection \<open>What the contract imports\<close>

text \<open>
  The FHE library (\<open>@fhevm/solidity\<close>), \<open>keccak256\<close> over the ABI encoding, and the
  address of the deployed contract are not part of the contract's source. They are
  parameters of the model: every definition below takes a \<open>host\<close> and makes no
  assumption about its functions.
  \<^item> \<open>asEuint32_zero\<close> is \<open>FHE.asEuint32(0)\<close>;
  \<^item> \<open>fhe_add\<close> is \<open>FHE.add\<close>;
  \<^item> \<open>toBytes32\<close> is \<open>FHE.toBytes32\<close>;
  \<^item> \<open>keccak256_encode bs a\<close> is \<open>keccak256(abi.encode(bs, a))\<close>;
  \<^item> \<open>checkSignatures\<close> is \<open>FHE.checkSignatures\<close>;
  \<^item> \<open>this\<close> is \<open>address(this)\<close>.
  The request id that \<open>FHE.requestDecryption\<close> returns is chosen by the library; it is
  an argument of \<open>requestBatchDecryption\<close> below.
\<close>

record host =
  asEuint32_zero :: euint32
  fhe_add :: "euint32 \<Rightarrow> euint32 \<Rightarrow> euint32"
  toBytes32 :: "euint32 \<Rightarrow> bytes32"
  keccak256_encode :: "bytes32 list \<Rightarrow> address \<Rightarrow> bytes32"
  checkSignatures :: "uint256 \<Rightarrow> bytes \<Rightarrow> bytes \<Rightarrow> bool"
  this :: address

subsection \<open>Language primitives\<close>

text \<open>Addition of \<open>uint256\<close> in Solidity 0.8: it reverts where the sum does not fit.\<close>

definition checked_add :: "uint256 \<Rightarrow> uint256 \<Rightarrow> uint256 option" where
  "checked_add a b = (if unat a + unat b < 2 ^ 256 then Some (a + b) else None)"

text \<open>
  \<open>abi.decode(data, (uint256))\<close>: it reverts on fewer than 32 bytes and reads the first
  32 bytes as a big-endian number otherwise.
\<close>

definition be_nat :: "bytes \<Rightarrow> nat" where
  "be_nat bs = foldl (\<lambda>acc b. acc * 256 + unat b) 0 bs"

definition abi_decode_uint256 :: "bytes \<Rightarrow> uint256 option" where
  "abi_decode_uint256 data =
     (if length data < 32 then None else Some (of_nat (be_nat (take 32 data))))"

subsection \<open>Internal functions\<close>

definition hashCiphertexts :: "host \<Rightarrow> euint32 list \<Rightarrow> bytes32" where
  "hashCiphertexts h cts = keccak256_encode h (map (toBytes32 h) cts) (this h)"

definition batchExists :: "state \<Rightarrow> uint256 \<Rightarrow> bool" where
  "batchExists s b = exists (batches s b)"

subsection \<open>The constructor and the external functions\<close>

text \<open>
  Every function takes the storage before the call, \<open>msg.sender\<close> and, where the code
  reads it, \<open>block.timestamp\<close>. It returns \<open>Inl e\<close> where the code reverts with \<open>e\<close>
  (the storage and the log are then what they were before the call), and \<open>Inr s'\<close>
  with the storage after the call otherwise. The modifiers are checked in the order in
  which the function header lists them.
\<close>

definition constructor :: "address \<Rightarrow> state" where
  "constructor sender =
     \<lparr> isProvider = (\<lambda>_. False),
       batches = (\<lambda>_. \<lparr> exists = False, closed = False, totalEncryptedBandwidth = 0 \<rparr>),
       decryptionContexts = (\<lambda>_. \<lparr> batchId = 0, stateHash = 0, processed = False \<rparr>),
       lastSubmissionTime = (\<lambda>_. 0),
       lastDecryptionRequestTime = (\<lambda>_. 0),
       owner = sender,
       paused = False,
       cooldownSeconds = 60,
       events = [] \<rparr>"

definition addProvider :: "state \<Rightarrow> address \<Rightarrow> address \<Rightarrow> error + state" where
  "addProvider s sender provider =
     (if sender \<noteq> owner s then Inl NotOwner
      else Inr (s\<lparr> isProvider := (isProvider s)(provider := True),
                   events := events s @ [ProviderAdded provider] \<rparr>))"

definition removeProvider :: "state \<Rightarrow> address \<Rightarrow> address \<Rightarrow> error + state" where
  "removeProvider s sender provider =
     (if sender \<noteq> owner s then Inl NotOwner
      else Inr (s\<lparr> isProvider := (isProvider s)(provider := False),
                   events := events s @ [ProviderRemoved provider] \<rparr>))"

definition pause :: "state \<Rightarrow> address \<Rightarrow> error + state" where
  "pause s sender =
     (if sender \<noteq> owner s then Inl NotOwner
      else if paused s then Inl Paused
      else Inr (s\<lparr> paused := True, events := events s @ [PausedEvent sender] \<rparr>))"

definition unpause :: "state \<Rightarrow> address \<Rightarrow> error + state" where
  "unpause s sender =
     (if sender \<noteq> owner s then Inl NotOwner
      else Inr (s\<lparr> paused := False, events := events s @ [Unpaused sender] \<rparr>))"

definition setCooldownSeconds :: "state \<Rightarrow> address \<Rightarrow> uint256 \<Rightarrow> error + state" where
  "setCooldownSeconds s sender newCooldownSeconds =
     (if sender \<noteq> owner s then Inl NotOwner
      else if newCooldownSeconds = 0 then Inl InvalidParameter
      else Inr (s\<lparr> cooldownSeconds := newCooldownSeconds,
                   events := events s @
                     [CooldownSecondsChanged (cooldownSeconds s) newCooldownSeconds] \<rparr>))"

definition openBatch :: "host \<Rightarrow> state \<Rightarrow> address \<Rightarrow> uint256 \<Rightarrow> error + state" where
  "openBatch h s sender b =
     (if sender \<noteq> owner s then Inl NotOwner
      else if paused s then Inl Paused
      else if exists (batches s b) then Inl InvalidParameter
      else Inr (s\<lparr> batches := (batches s)
                     (b := \<lparr> exists = True, closed = False,
                            totalEncryptedBandwidth = asEuint32_zero h \<rparr>),
                   events := events s @ [BatchOpened b] \<rparr>))"

definition closeBatch :: "host \<Rightarrow> state \<Rightarrow> address \<Rightarrow> uint256 \<Rightarrow> error + state" where
  "closeBatch h s sender b =
     (if sender \<noteq> owner s then Inl NotOwner
      else if paused s then Inl Paused
      else if \<not> batchExists s b then Inl BatchClosedOrDoesNotExist
      else if closed (batches s b) then Inl BatchClosedOrDoesNotExist
      else Inr (s\<lparr> batches := (batches s)(b := (batches s b)\<lparr> closed := True \<rparr>),
                   events := events s @
                     [BatchClosed b (toBytes32 h (totalEncryptedBandwidth (batches s b)))] \<rparr>))"

definition contributeBandwidth ::
  "host \<Rightarrow> state \<Rightarrow> address \<Rightarrow> uint256 \<Rightarrow> uint256 \<Rightarrow> euint32 \<Rightarrow> error + state" where
  "contributeBandwidth h s sender timestamp b encryptedBandwidth =
     (if \<not> isProvider s sender then Inl NotProvider
      else if paused s then Inl Paused
      else case checked_add (lastSubmissionTime s sender) (cooldownSeconds s) of
        None \<Rightarrow> Inl PanicOverflow
      | Some ready \<Rightarrow>
          if timestamp < ready then Inl CooldownActive
          else if \<not> batchExists s b \<or> closed (batches s b) then Inl BatchClosedOrDoesNotExist
          else Inr (s\<lparr> lastSubmissionTime := (lastSubmissionTime s)(sender := timestamp),
                       batches := (batches s)
                         (b := (batches s b)\<lparr> totalEncryptedBandwidth :=
                                 fhe_add h (totalEncryptedBandwidth (batches s b))
                                   encryptedBandwidth \<rparr>),
                       events := events s @
                         [BandwidthContributed sender b (toBytes32 h encryptedBandwidth)] \<rparr>))"

text \<open>
  \<open>requestId\<close> is the value \<open>FHE.requestDecryption(cts, this.myCallback.selector)\<close>
  returns in this call.
\<close>

definition requestBatchDecryption ::
  "host \<Rightarrow> state \<Rightarrow> address \<Rightarrow> uint256 \<Rightarrow> uint256 \<Rightarrow> uint256 \<Rightarrow> error + state" where
  "requestBatchDecryption h s sender timestamp b requestId =
     (if sender \<noteq> owner s then Inl NotOwner
      else if paused s then Inl Paused
      else case checked_add (lastDecryptionRequestTime s sender) (cooldownSeconds s) of
        None \<Rightarrow> Inl PanicOverflow
      | Some ready \<Rightarrow>
          if timestamp < ready then Inl CooldownActive
          else if \<not> batchExists s b \<or> \<not> closed (batches s b) then Inl BatchClosedOrDoesNotExist
          else
            let cts = [totalEncryptedBandwidth (batches s b)];
                hash = hashCiphertexts h cts
            in Inr (s\<lparr> lastDecryptionRequestTime :=
                         (lastDecryptionRequestTime s)(sender := timestamp),
                       decryptionContexts := (decryptionContexts s)
                         (requestId := \<lparr> batchId = b, stateHash = hash, processed = False \<rparr>),
                       events := events s @ [DecryptionRequested requestId b hash] \<rparr>))"

text \<open>
  \<open>myCallback\<close> is \<open>public\<close> and has no modifier; its body never reads \<open>msg.sender\<close>.
\<close>

definition myCallback ::
  "host \<Rightarrow> state \<Rightarrow> address \<Rightarrow> uint256 \<Rightarrow> bytes \<Rightarrow> bytes \<Rightarrow> error + state" where
  "myCallback h s sender requestId cleartexts proof =
     (if processed (decryptionContexts s requestId) then Inl ReplayAttempt
      else
        let currentCts =
              [totalEncryptedBandwidth (batches s (batchId (decryptionContexts s requestId)))];
            currentStateHash = hashCiphertexts h currentCts
        in if currentStateHash \<noteq> stateHash (decryptionContexts s requestId)
           then Inl StateMismatch
           else if \<not> checkSignatures h requestId cleartexts proof then Inl DecryptionFailed
           else case abi_decode_uint256 cleartexts of
             None \<Rightarrow> Inl AbiDecodeRevert
           | Some totalBandwidth \<Rightarrow>
               Inr (s\<lparr> decryptionContexts := (decryptionContexts s)
                         (requestId := (decryptionContexts s requestId)\<lparr> processed := True \<rparr>),
                       events := events s @
                         [DecryptionCompleted requestId
                            (batchId (decryptionContexts s requestId)) totalBandwidth] \<rparr>))"

subsection \<open>Transactions\<close>

datatype call =
    AddProvider address
  | RemoveProvider address
  | Pause
  | Unpause
  | SetCooldownSeconds uint256
  | OpenBatch uint256
  | CloseBatch uint256
  | ContributeBandwidth uint256 euint32
  | RequestBatchDecryption uint256 uint256
  | MyCallback uint256 bytes bytes

record tx =
  msg_sender :: address
  block_timestamp :: uint256
  tx_call :: call

fun dispatch :: "host \<Rightarrow> state \<Rightarrow> address \<Rightarrow> uint256 \<Rightarrow> call \<Rightarrow> error + state" where
  "dispatch h s a t (AddProvider p) = addProvider s a p"
| "dispatch h s a t (RemoveProvider p) = removeProvider s a p"
| "dispatch h s a t Pause = pause s a"
| "dispatch h s a t Unpause = unpause s a"
| "dispatch h s a t (SetCooldownSeconds n) = setCooldownSeconds s a n"
| "dispatch h s a t (OpenBatch b) = openBatch h s a b"
| "dispatch h s a t (CloseBatch b) = closeBatch h s a b"
| "dispatch h s a t (ContributeBandwidth b v) = contributeBandwidth h s a t b v"
| "dispatch h s a t (RequestBatchDecryption b r) = requestBatchDecryption h s a t b r"
| "dispatch h s a t (MyCallback r c p) = myCallback h s a r c p"

definition exec :: "host \<Rightarrow> state \<Rightarrow> tx \<Rightarrow> error + state" where
  "exec h s x = dispatch h s (msg_sender x) (block_timestamp x) (tx_call x)"

text \<open>The storage after a transaction: a reverted one leaves it as it was.\<close>

definition after :: "host \<Rightarrow> state \<Rightarrow> tx \<Rightarrow> state" where
  "after h s x = (case exec h s x of Inl e \<Rightarrow> s | Inr s' \<Rightarrow> s')"

fun run :: "host \<Rightarrow> state \<Rightarrow> tx list \<Rightarrow> state" where
  "run h s [] = s"
| "run h s (x # xs) = run h (after h s x) xs"

text \<open>The storages the contract can be in: deployed by someone, then any transactions.\<close>

inductive reachable :: "host \<Rightarrow> state \<Rightarrow> bool" for h :: host where
  deployed: "reachable h (constructor a)"
| step: "reachable h s \<Longrightarrow> reachable h (after h s x)"

subsection \<open>A host to evaluate the model on\<close>

text \<open>
  An instance of the imported functions, simple enough to compute with: a handle is a
  number, the encrypted zero has the handle 1, \<open>FHE.add\<close> adds the handles, the hash is
  an odd number computed from the handles and the contract's address (so never the zero
  word), and the signature check accepts the one-byte proof \<open>[1]\<close>. It serves the
  evaluations at concrete inputs only; every general theorem below holds for all hosts.
\<close>

definition sample_host :: host where
  "sample_host =
     \<lparr> asEuint32_zero = 1,
       fhe_add = (\<lambda>x y. x + y),
       toBytes32 = (\<lambda>x. x),
       keccak256_encode = (\<lambda>bs a. 2 * foldl (\<lambda>acc b. 31 * acc + b) (ucast a + 7) bs + 1),
       checkSignatures = (\<lambda>r c p. p = [1]),
       this = 192 \<rparr>"

text \<open>
  A history to evaluate on, deployed by address 1: the owner registers the providers 2
  and 3 and opens batch 7; each provider contributes once, at time 100; the owner closes
  the batch and requests its decryption, for which the library issues the request id 0.
\<close>

definition batch_opened :: "tx list" where
  "batch_opened =
     [\<lparr> msg_sender = 1, block_timestamp = 10, tx_call = AddProvider 2 \<rparr>,
      \<lparr> msg_sender = 1, block_timestamp = 10, tx_call = AddProvider 3 \<rparr>,
      \<lparr> msg_sender = 1, block_timestamp = 20, tx_call = OpenBatch 7 \<rparr>]"

definition batch_closed :: "tx list" where
  "batch_closed = batch_opened @
     [\<lparr> msg_sender = 2, block_timestamp = 100, tx_call = ContributeBandwidth 7 10 \<rparr>,
      \<lparr> msg_sender = 3, block_timestamp = 100, tx_call = ContributeBandwidth 7 15 \<rparr>,
      \<lparr> msg_sender = 1, block_timestamp = 150, tx_call = CloseBatch 7 \<rparr>]"

definition decryption_requested :: "tx list" where
  "decryption_requested = batch_closed @
     [\<lparr> msg_sender = 1, block_timestamp = 200, tx_call = RequestBatchDecryption 7 0 \<rparr>]"

text \<open>What a key of \<open>batches\<close> and of \<open>decryptionContexts\<close> reads before it is written.\<close>

definition no_batch :: Batch where
  "no_batch = \<lparr> exists = False, closed = False, totalEncryptedBandwidth = 0 \<rparr>"

definition no_context :: DecryptionContext where
  "no_context = \<lparr> batchId = 0, stateHash = 0, processed = False \<rparr>"

text \<open>The cleartexts of the aggregate 25: a 32-byte big-endian word.\<close>

definition cleartext_25 :: bytes where
  "cleartext_25 = replicate 31 0 @ [25]"

text \<open>
  The storage after the sample history, but with the accumulator of batch 7 changed from
  26 to 27 after the commitment of request 0 was stored. No function of the contract
  leads there, since a closed batch keeps its accumulator; it is the situation that the
  commitment check of \<open>myCallback\<close> is written for.
\<close>

definition accumulator_changed :: state where
  "accumulator_changed =
     (run sample_host (constructor 1) decryption_requested)
       \<lparr> batches := (\<lambda>_. no_batch)
           (7 := \<lparr> exists = True, closed = True, totalEncryptedBandwidth = 27 \<rparr>) \<rparr>"

subsection \<open>Notions the statements use\<close>

text \<open>
  The commitment that \<open>myCallback\<close> recomputes for a request id: its local variable
  \<open>currentStateHash\<close>, the hash of the present accumulator of the batch that the stored
  context names.
\<close>

definition currentStateHash :: "host \<Rightarrow> state \<Rightarrow> uint256 \<Rightarrow> bytes32" where
  "currentStateHash h s r =
     hashCiphertexts h
       [totalEncryptedBandwidth (batches s (batchId (decryptionContexts s r)))]"

text \<open>
  A call is a callback for the request id \<open>r\<close>; a call is a decryption request to which
  the library issues the id \<open>r\<close>; and the number of callbacks for \<open>r\<close> that do not revert
  when the transactions \<open>xs\<close> run one after the other from the storage \<open>s\<close>.
\<close>

fun callback_of :: "uint256 \<Rightarrow> call \<Rightarrow> bool" where
  "callback_of r (MyCallback r' c p) = (r' = r)"
| "callback_of r _ = False"

fun issues :: "uint256 \<Rightarrow> call \<Rightarrow> bool" where
  "issues r (RequestBatchDecryption b r') = (r' = r)"
| "issues r _ = False"

fun accepted_callbacks :: "host \<Rightarrow> uint256 \<Rightarrow> state \<Rightarrow> tx list \<Rightarrow> nat" where
  "accepted_callbacks h r s [] = 0"
| "accepted_callbacks h r s (x # xs) =
     (if callback_of r (tx_call x) \<and> \<not> isl (exec h s x) then 1 else 0)
     + accepted_callbacks h r (after h s x) xs"

text \<open>
  Every stored commitment other than the zero word belongs to a batch that exists, is
  closed and still has the accumulator the commitment was taken of; a context whose
  commitment is the zero word is not processed.
\<close>

definition commitments_bound :: "host \<Rightarrow> state \<Rightarrow> bool" where
  "commitments_bound h s \<longleftrightarrow>
     (\<forall>r. if stateHash (decryptionContexts s r) = 0
          then \<not> processed (decryptionContexts s r)
          else exists (batches s (batchId (decryptionContexts s r)))
             \<and> closed (batches s (batchId (decryptionContexts s r)))
             \<and> stateHash (decryptionContexts s r) = currentStateHash h s r)"

section \<open>Basic facts\<close>

lemmas call_defs =
  addProvider_def removeProvider_def pause_def unpause_def setCooldownSeconds_def
  openBatch_def closeBatch_def contributeBandwidth_def requestBatchDecryption_def
  myCallback_def batchExists_def

lemma checked_add_Some: "checked_add a b = Some c \<Longrightarrow> unat c = unat a + unat b"
  by (auto simp: checked_add_def unat_word_ariths split: if_splits)

lemma checked_add_None: "checked_add a b = None \<Longrightarrow> 2 ^ 256 \<le> unat a + unat b"
  by (auto simp: checked_add_def split: if_splits)

lemma checked_add_zero: "checked_add 0 b = Some b"
  using unsigned_less [of b, where 'a = nat] by (simp add: checked_add_def)

lemma checked_add_fits:
  "unat a + unat b \<le> unat (t :: uint256) \<Longrightarrow> checked_add a b = Some (a + b)"
  using unsigned_less [of t, where 'a = nat] by (simp add: checked_add_def)

lemma after_reverted: "exec h s x = Inl e \<Longrightarrow> after h s x = s"
  by (simp add: after_def)

lemma run_append: "run h s (xs @ ys) = run h (run h s xs) ys"
  by (induction xs arbitrary: s) simp_all

lemma reachable_run: "reachable h s \<Longrightarrow> reachable h (run h s xs)"
  by (induction xs arbitrary: s) (simp_all add: reachable.step)

subsection \<open>The storage along the sample history\<close>

lemma run_batch_opened:
  "run sample_host (constructor 1) batch_opened =
     \<lparr> isProvider = (\<lambda>_. False)(2 := True, 3 := True),
       batches = (\<lambda>_. no_batch)
         (7 := \<lparr> exists = True, closed = False, totalEncryptedBandwidth = 1 \<rparr>),
       decryptionContexts = (\<lambda>_. no_context),
       lastSubmissionTime = (\<lambda>_. 0),
       lastDecryptionRequestTime = (\<lambda>_. 0),
       owner = 1, paused = False, cooldownSeconds = 60,
       events = [ProviderAdded 2, ProviderAdded 3, BatchOpened 7] \<rparr>"
  by (simp add: batch_opened_def after_def exec_def call_defs constructor_def sample_host_def
      no_batch_def no_context_def)

lemma run_batch_closed:
  "run sample_host (constructor 1) batch_closed =
     \<lparr> isProvider = (\<lambda>_. False)(2 := True, 3 := True),
       batches = (\<lambda>_. no_batch)
         (7 := \<lparr> exists = True, closed = True, totalEncryptedBandwidth = 26 \<rparr>),
       decryptionContexts = (\<lambda>_. no_context),
       lastSubmissionTime = (\<lambda>_. 0)(2 := 100, 3 := 100),
       lastDecryptionRequestTime = (\<lambda>_. 0),
       owner = 1, paused = False, cooldownSeconds = 60,
       events = [ProviderAdded 2, ProviderAdded 3, BatchOpened 7,
                 BandwidthContributed 2 7 10, BandwidthContributed 3 7 15,
                 BatchClosed 7 26] \<rparr>"
  by (simp add: batch_closed_def run_append run_batch_opened)
     (simp add: after_def exec_def call_defs sample_host_def checked_add_def)

lemma run_decryption_requested:
  "run sample_host (constructor 1) decryption_requested =
     \<lparr> isProvider = (\<lambda>_. False)(2 := True, 3 := True),
       batches = (\<lambda>_. no_batch)
         (7 := \<lparr> exists = True, closed = True, totalEncryptedBandwidth = 26 \<rparr>),
       decryptionContexts = (\<lambda>_. no_context)
         (0 := \<lparr> batchId = 7, stateHash = 12391, processed = False \<rparr>),
       lastSubmissionTime = (\<lambda>_. 0)(2 := 100, 3 := 100),
       lastDecryptionRequestTime = (\<lambda>_. 0)(1 := 200),
       owner = 1, paused = False, cooldownSeconds = 60,
       events = [ProviderAdded 2, ProviderAdded 3, BatchOpened 7,
                 BandwidthContributed 2 7 10, BandwidthContributed 3 7 15,
                 BatchClosed 7 26, DecryptionRequested 0 7 12391] \<rparr>"
  by (simp add: decryption_requested_def run_append run_batch_closed)
     (simp add: after_def exec_def call_defs sample_host_def checked_add_def
        hashCiphertexts_def Let_def)

lemma decode_cleartext_25: "abi_decode_uint256 cleartext_25 = Some 25"
  by code_simp

lemma sample_hash_nonzero: "\<forall>bs. keccak256_encode sample_host bs (this sample_host) \<noteq> 0"
proof
  fix bs
  have "2 * x + 1 \<noteq> (0 :: uint256)" for x
  proof
    assume "2 * x + 1 = (0 :: uint256)"
    then have "even (2 * x + 1)" by simp
    then show False by simp
  qed
  then show "keccak256_encode sample_host bs (this sample_host) \<noteq> 0"
    by (simp add: sample_host_def)
qed

lemma sample_callback:
  "myCallback sample_host (run sample_host (constructor 1) decryption_requested)
     a 0 cleartext_25 [1]
   = Inr (run sample_host (constructor 1) decryption_requested
       \<lparr> decryptionContexts := (\<lambda>_. no_context)
           (0 := \<lparr> batchId = 7, stateHash = 12391, processed = True \<rparr>),
         events := [ProviderAdded 2, ProviderAdded 3, BatchOpened 7,
                 BandwidthContributed 2 7 10, BandwidthContributed 3 7 15,
                 BatchClosed 7 26, DecryptionRequested 0 7 12391,
                 DecryptionCompleted 0 7 25] \<rparr>)"
  unfolding run_decryption_requested
  by (simp add: myCallback_def hashCiphertexts_def sample_host_def decode_cleartext_25)

section \<open>The cooldown window is never zero\<close>

lemma after_cooldown_nonzero:
  "cooldownSeconds s \<noteq> 0 \<Longrightarrow> cooldownSeconds (after h s x) \<noteq> 0"
  by (cases "tx_call x")
     (auto simp: after_def exec_def call_defs Let_def split: if_splits option.splits)

lemma reachable_cooldown_nonzero: "reachable h s \<Longrightarrow> cooldownSeconds s \<noteq> 0"
  by (induction rule: reachable.induct) (simp_all add: constructor_def after_cooldown_nonzero)

text \<open>
  Claim C8. \<open>setCooldownSeconds(0)\<close> by the owner reverts with \<open>InvalidParameter\<close>; by
  anyone it reverts, so the storage, and with it the stored \<open>cooldownSeconds\<close>, is what it
  was. The constructor stores 60 and no function stores 0: in every storage the contract
  can reach, \<open>cooldownSeconds\<close> is positive.
\<close>

theorem zero_cooldown_rejected:
  "setCooldownSeconds s (owner s) 0 = Inl InvalidParameter
   \<and> (\<exists>e. setCooldownSeconds s a 0 = Inl e)
   \<and> after h s \<lparr> msg_sender = a, block_timestamp = t, tx_call = SetCooldownSeconds 0 \<rparr> = s
   \<and> (reachable h s \<longrightarrow> 0 < cooldownSeconds s)"
proof -
  have "reachable h s \<longrightarrow> 0 < cooldownSeconds s"
    using reachable_cooldown_nonzero [of h s] by (simp add: word_greater_zero_iff)
  then show ?thesis
    by (simp add: setCooldownSeconds_def after_def exec_def)
qed

theorem zero_cooldown_rejected_witness:
  "reachable sample_host (after sample_host (constructor 1)
      \<lparr> msg_sender = 1, block_timestamp = 5, tx_call = SetCooldownSeconds 0 \<rparr>)
   \<and> setCooldownSeconds (constructor 1) 1 0 = Inl InvalidParameter
   \<and> cooldownSeconds (after sample_host (constructor 1)
      \<lparr> msg_sender = 1, block_timestamp = 5, tx_call = SetCooldownSeconds 0 \<rparr>) = 60"
proof -
  have r: "reachable sample_host (constructor 1)" by (rule reachable.deployed)
  show ?thesis
    using r zero_cooldown_rejected [of "constructor 1" 1 sample_host 5]
    by (simp add: constructor_def)
qed

section \<open>Which functions the pause switch gates\<close>

text \<open>
  Claim C9. While the contract is paused, the owner's \<open>addProvider\<close>, \<open>removeProvider\<close>,
  \<open>setCooldownSeconds\<close> (of a value other than 0) and \<open>unpause\<close> still succeed and have
  their effect. The functions that carry \<open>whenNotPaused\<close> revert with \<open>Paused\<close> for a
  caller who passes their role check: \<open>pause\<close>, \<open>openBatch\<close>, \<open>closeBatch\<close> and
  \<open>requestBatchDecryption\<close> for the owner, \<open>contributeBandwidth\<close> for a provider. The
  callback never reverts with \<open>Paused\<close>.
\<close>

theorem owner_functions_not_pause_gated:
  assumes "paused s" and "a = owner s"
  shows "(\<exists>s'. addProvider s a p = Inr s' \<and> isProvider s' p)
       \<and> (\<exists>s'. removeProvider s a p = Inr s' \<and> \<not> isProvider s' p)
       \<and> (n \<noteq> 0 \<longrightarrow> (\<exists>s'. setCooldownSeconds s a n = Inr s' \<and> cooldownSeconds s' = n))
       \<and> (\<exists>s'. unpause s a = Inr s' \<and> \<not> paused s')
       \<and> pause s a = Inl Paused
       \<and> openBatch h s a b = Inl Paused
       \<and> closeBatch h s a b = Inl Paused
       \<and> requestBatchDecryption h s a t b r = Inl Paused
       \<and> (isProvider s q \<longrightarrow> contributeBandwidth h s q t b v = Inl Paused)
       \<and> myCallback h s q r c pf \<noteq> Inl Paused"
proof -
  have "myCallback h s q r c pf \<noteq> Inl Paused"
    by (simp add: myCallback_def Let_def split: option.splits)
  with assms show ?thesis
    by (simp add: addProvider_def removeProvider_def setCooldownSeconds_def unpause_def
        pause_def openBatch_def closeBatch_def requestBatchDecryption_def
        contributeBandwidth_def)
qed

theorem owner_functions_not_pause_gated_witness:
  "paused (after sample_host (constructor 1)
      \<lparr> msg_sender = 1, block_timestamp = 10, tx_call = Pause \<rparr>)
   \<and> (\<exists>s'. addProvider (after sample_host (constructor 1)
          \<lparr> msg_sender = 1, block_timestamp = 10, tx_call = Pause \<rparr>) 1 2 = Inr s'
        \<and> isProvider s' 2)
   \<and> (\<exists>s'. setCooldownSeconds (after sample_host (constructor 1)
          \<lparr> msg_sender = 1, block_timestamp = 10, tx_call = Pause \<rparr>) 1 30 = Inr s'
        \<and> cooldownSeconds s' = 30)
   \<and> (\<exists>s'. unpause (after sample_host (constructor 1)
          \<lparr> msg_sender = 1, block_timestamp = 10, tx_call = Pause \<rparr>) 1 = Inr s'
        \<and> \<not> paused s')
   \<and> openBatch sample_host (after sample_host (constructor 1)
          \<lparr> msg_sender = 1, block_timestamp = 10, tx_call = Pause \<rparr>) 1 7 = Inl Paused"
proof -
  let ?s = "after sample_host (constructor 1)
      \<lparr> msg_sender = 1, block_timestamp = 10, tx_call = Pause \<rparr>"
  have p: "paused ?s" and o: "1 = owner ?s"
    by (simp_all add: after_def exec_def pause_def constructor_def)
  show ?thesis
    using p owner_functions_not_pause_gated [OF p o, of 2 30 sample_host 7 100 0 1 0 "[]" "[]"]
    by simp
qed

section \<open>The cooldown\<close>

lemma after_lastSubmissionTime:
  "msg_sender x = a \<longrightarrow> (\<forall>b v. tx_call x \<noteq> ContributeBandwidth b v) \<Longrightarrow>
   lastSubmissionTime (after h s x) a = lastSubmissionTime s a"
  by (cases "tx_call x")
     (auto simp: after_def exec_def call_defs Let_def split: if_splits option.splits)

lemma after_lastDecryptionRequestTime:
  "msg_sender x = a \<longrightarrow> (\<forall>b r. tx_call x \<noteq> RequestBatchDecryption b r) \<Longrightarrow>
   lastDecryptionRequestTime (after h s x) a = lastDecryptionRequestTime s a"
  by (cases "tx_call x")
     (auto simp: after_def exec_def call_defs Let_def split: if_splits option.splits)

lemma run_lastSubmissionTime:
  "\<forall>x\<in>set xs. msg_sender x = a \<longrightarrow> (\<forall>b v. tx_call x \<noteq> ContributeBandwidth b v) \<Longrightarrow>
   lastSubmissionTime (run h s xs) a = lastSubmissionTime s a"
  by (induction xs arbitrary: s) (simp_all add: after_lastSubmissionTime)

lemma run_lastDecryptionRequestTime:
  "\<forall>x\<in>set xs. msg_sender x = a \<longrightarrow> (\<forall>b r. tx_call x \<noteq> RequestBatchDecryption b r) \<Longrightarrow>
   lastDecryptionRequestTime (run h s xs) a = lastDecryptionRequestTime s a"
  by (induction xs arbitrary: s) (simp_all add: after_lastDecryptionRequestTime)

lemma contribute_in_cooldown:
  "isProvider s a \<Longrightarrow> \<not> paused s \<Longrightarrow>
   unat (lastSubmissionTime s a) + unat (cooldownSeconds s) < 2 ^ 256 \<Longrightarrow>
   unat t < unat (lastSubmissionTime s a) + unat (cooldownSeconds s) \<Longrightarrow>
   contributeBandwidth h s a t b v = Inl CooldownActive"
  by (simp add: contributeBandwidth_def checked_add_def word_less_nat_alt unat_word_ariths)

lemma request_in_cooldown:
  "a = owner s \<Longrightarrow> \<not> paused s \<Longrightarrow>
   unat (lastDecryptionRequestTime s a) + unat (cooldownSeconds s) < 2 ^ 256 \<Longrightarrow>
   unat t < unat (lastDecryptionRequestTime s a) + unat (cooldownSeconds s) \<Longrightarrow>
   requestBatchDecryption h s a t b r = Inl CooldownActive"
  by (simp add: requestBatchDecryption_def checked_add_def word_less_nat_alt unat_word_ariths)

text \<open>
  Claim C10. After deployment and any transactions among which the actor has sent no
  \<open>contributeBandwidth\<close>, the actor's \<open>lastSubmissionTime\<close> reads 0, the default of the
  mapping, and the cooldown check compares the time with \<open>0 + cooldownSeconds\<close>: a
  provider's first contribution at a time below \<open>cooldownSeconds\<close> reverts with
  \<open>CooldownActive\<close> (the contract not being paused). The same holds for
  \<open>lastDecryptionRequestTime\<close> and the owner's first \<open>requestBatchDecryption\<close>.
\<close>

theorem first_action_checked_against_zero:
  assumes "s = run h (constructor d) xs" and "\<not> paused s" and "t < cooldownSeconds s"
  shows "((\<forall>x\<in>set xs. msg_sender x = a \<longrightarrow> (\<forall>b v. tx_call x \<noteq> ContributeBandwidth b v))
            \<longrightarrow> lastSubmissionTime s a = 0
              \<and> (isProvider s a \<longrightarrow> contributeBandwidth h s a t b v = Inl CooldownActive))
       \<and> ((\<forall>x\<in>set xs. msg_sender x = a \<longrightarrow> (\<forall>b r. tx_call x \<noteq> RequestBatchDecryption b r))
            \<longrightarrow> lastDecryptionRequestTime s a = 0
              \<and> (a = owner s \<longrightarrow> requestBatchDecryption h s a t b r = Inl CooldownActive))"
proof -
  have lt: "unat t < unat (cooldownSeconds s)" and fits: "unat (cooldownSeconds s) < 2 ^ 256"
    using assms(3) unsigned_less [of "cooldownSeconds s", where 'a = nat]
    by (simp_all add: word_less_nat_alt)
  have sub: "lastSubmissionTime s a = 0"
    if "\<forall>x\<in>set xs. msg_sender x = a \<longrightarrow> (\<forall>b v. tx_call x \<noteq> ContributeBandwidth b v)"
    using run_lastSubmissionTime [OF that, of h "constructor d"] assms(1)
    by (simp add: constructor_def)
  have req: "lastDecryptionRequestTime s a = 0"
    if "\<forall>x\<in>set xs. msg_sender x = a \<longrightarrow> (\<forall>b r. tx_call x \<noteq> RequestBatchDecryption b r)"
    using run_lastDecryptionRequestTime [OF that, of h "constructor d"] assms(1)
    by (simp add: constructor_def)
  show ?thesis
    using sub req lt fits assms(2)
      contribute_in_cooldown [of s a t h b v] request_in_cooldown [of a s t h b r]
    by auto
qed

theorem first_action_checked_against_zero_witness:
  "\<not> paused (run sample_host (constructor 1)
        [\<lparr> msg_sender = 1, block_timestamp = 10, tx_call = AddProvider 1 \<rparr>])
   \<and> contributeBandwidth sample_host
        (run sample_host (constructor 1)
          [\<lparr> msg_sender = 1, block_timestamp = 10, tx_call = AddProvider 1 \<rparr>])
        1 59 7 10 = Inl CooldownActive
   \<and> requestBatchDecryption sample_host
        (run sample_host (constructor 1)
          [\<lparr> msg_sender = 1, block_timestamp = 10, tx_call = AddProvider 1 \<rparr>])
        1 59 7 0 = Inl CooldownActive"
proof -
  let ?xs = "[\<lparr> msg_sender = 1, block_timestamp = 10, tx_call = AddProvider 1 \<rparr>]"
  let ?s = "run sample_host (constructor 1) ?xs"
  have np: "\<not> paused ?s" and lt: "59 < cooldownSeconds ?s"
    and prov: "isProvider ?s 1" and own: "1 = owner ?s"
    by (simp_all add: after_def exec_def addProvider_def constructor_def)
  show ?thesis
    using first_action_checked_against_zero [OF refl np lt, of 1 7 10 0] np prov own
    by simp
qed

subsection \<open>Two calls of one actor\<close>

text \<open>
  What the transactions of others leave alone: a transaction sent neither by the actor
  nor by the owner changes none of the values that the checks of the actor's next call
  read.
\<close>

lemma after_same_gates:
  assumes "msg_sender x \<noteq> a" and "msg_sender x \<noteq> owner s"
  shows "owner (after h s x) = owner s \<and> paused (after h s x) = paused s
       \<and> cooldownSeconds (after h s x) = cooldownSeconds s
       \<and> isProvider (after h s x) a = isProvider s a
       \<and> lastSubmissionTime (after h s x) a = lastSubmissionTime s a
       \<and> lastDecryptionRequestTime (after h s x) a = lastDecryptionRequestTime s a
       \<and> (\<forall>b. exists (batches (after h s x) b) = exists (batches s b)
              \<and> closed (batches (after h s x) b) = closed (batches s b))"
  using assms
  by (cases "tx_call x")
     (auto simp: after_def exec_def call_defs Let_def split: if_splits option.splits)

lemma run_same_gates:
  "\<forall>x\<in>set xs. msg_sender x \<noteq> a \<and> msg_sender x \<noteq> owner s \<Longrightarrow>
   owner (run h s xs) = owner s \<and> paused (run h s xs) = paused s
   \<and> cooldownSeconds (run h s xs) = cooldownSeconds s
   \<and> isProvider (run h s xs) a = isProvider s a
   \<and> lastSubmissionTime (run h s xs) a = lastSubmissionTime s a
   \<and> lastDecryptionRequestTime (run h s xs) a = lastDecryptionRequestTime s a
   \<and> (\<forall>b. exists (batches (run h s xs) b) = exists (batches s b)
          \<and> closed (batches (run h s xs) b) = closed (batches s b))"
proof (induction xs arbitrary: s)
  case Nil
  show ?case by simp
next
  case (Cons x xs)
  have one: "msg_sender x \<noteq> a" "msg_sender x \<noteq> owner s"
    using Cons.prems by simp_all
  note f = after_same_gates [OF one, of h]
  have "\<forall>y\<in>set xs. msg_sender y \<noteq> a \<and> msg_sender y \<noteq> owner (after h s x)"
    using Cons.prems f by simp
  from Cons.IH [OF this] f show ?case by simp
qed

lemma contribute_done:
  assumes "contributeBandwidth h s a t b v = Inr s1"
  shows "isProvider s1 a \<and> \<not> paused s1 \<and> owner s1 = owner s
       \<and> cooldownSeconds s1 = cooldownSeconds s \<and> lastSubmissionTime s1 a = t
       \<and> unat (cooldownSeconds s) \<le> unat t"
proof -
  obtain r where r: "checked_add (lastSubmissionTime s a) (cooldownSeconds s) = Some r"
    and le: "\<not> t < r"
    using assms by (auto simp: contributeBandwidth_def split: if_splits option.splits)
  have "unat (cooldownSeconds s) \<le> unat t"
    using checked_add_Some [OF r] le by (simp add: word_less_nat_alt)
  with assms show ?thesis
    by (auto simp: contributeBandwidth_def split: if_splits option.splits)
qed

lemma request_done:
  assumes "requestBatchDecryption h s a t b r = Inr s1"
  shows "a = owner s1 \<and> \<not> paused s1 \<and> owner s1 = owner s
       \<and> cooldownSeconds s1 = cooldownSeconds s \<and> lastDecryptionRequestTime s1 a = t
       \<and> unat (cooldownSeconds s) \<le> unat t"
proof -
  obtain q where q: "checked_add (lastDecryptionRequestTime s a) (cooldownSeconds s) = Some q"
    and le: "\<not> t < q"
    using assms by (auto simp: requestBatchDecryption_def split: if_splits option.splits)
  have "unat (cooldownSeconds s) \<le> unat t"
    using checked_add_Some [OF q] le by (simp add: word_less_nat_alt)
  with assms show ?thesis
    by (auto simp: requestBatchDecryption_def Let_def split: if_splits option.splits)
qed

lemma contribute_after_cooldown:
  assumes "isProvider s a" "\<not> paused s"
    "unat (lastSubmissionTime s a) + unat (cooldownSeconds s) \<le> unat t"
    "exists (batches s b)" "\<not> closed (batches s b)"
  shows "\<exists>s'. contributeBandwidth h s a t b v = Inr s'"
proof -
  have "\<not> t < lastSubmissionTime s a + cooldownSeconds s"
    using assms(3) unsigned_less [of t, where 'a = nat]
    by (simp add: word_less_nat_alt unat_word_ariths)
  with assms show ?thesis
    by (simp add: contributeBandwidth_def batchExists_def checked_add_fits)
qed

lemma request_after_cooldown:
  assumes "a = owner s" "\<not> paused s"
    "unat (lastDecryptionRequestTime s a) + unat (cooldownSeconds s) \<le> unat t"
    "exists (batches s b)" "closed (batches s b)"
  shows "\<exists>s'. requestBatchDecryption h s a t b r = Inr s'"
proof -
  have "\<not> t < lastDecryptionRequestTime s a + cooldownSeconds s"
    using assms(3) unsigned_less [of t, where 'a = nat]
    by (simp add: word_less_nat_alt unat_word_ariths)
  with assms show ?thesis
    by (simp add: requestBatchDecryption_def batchExists_def checked_add_fits Let_def)
qed

text \<open>
  Claim C7. Let an actor's \<open>contributeBandwidth\<close> succeed at time \<open>t1\<close>, and let any
  transactions of others (neither the actor's nor the owner's, who alone can pause,
  change the window, remove a provider or open and close batches) follow. The actor's
  next contribution at \<open>t2\<close> reverts with \<open>CooldownActive\<close> if \<open>t2 < t1 + cooldownSeconds\<close>,
  and succeeds if \<open>t2 \<ge> t1 + cooldownSeconds\<close> and its batch exists and is open. The same
  holds for two \<open>requestBatchDecryption\<close> calls of the owner, the batch of the second
  being closed. Times are read as numbers; the first half is for \<open>t1\<close> below \<open>2 ^ 255\<close>,
  where \<open>t1 + cooldownSeconds\<close> fits 256 bits.
\<close>

theorem cooldown_between_two_calls:
  assumes others: "\<forall>x\<in>set xs. msg_sender x \<noteq> a \<and> msg_sender x \<noteq> owner s"
    and later: "s2 = run h s1 xs"
  shows "(contributeBandwidth h s a t1 b v = Inr s1 \<longrightarrow>
            (unat t1 < 2 ^ 255 \<and> unat t2 < unat t1 + unat (cooldownSeconds s)
               \<longrightarrow> contributeBandwidth h s2 a t2 b' v' = Inl CooldownActive)
          \<and> (unat t1 + unat (cooldownSeconds s) \<le> unat t2
               \<and> exists (batches s1 b') \<and> \<not> closed (batches s1 b')
               \<longrightarrow> (\<exists>s3. contributeBandwidth h s2 a t2 b' v' = Inr s3)))
       \<and> (requestBatchDecryption h s a t1 b r = Inr s1 \<longrightarrow>
            (unat t1 < 2 ^ 255 \<and> unat t2 < unat t1 + unat (cooldownSeconds s)
               \<longrightarrow> requestBatchDecryption h s2 a t2 b' r' = Inl CooldownActive)
          \<and> (unat t1 + unat (cooldownSeconds s) \<le> unat t2
               \<and> exists (batches s1 b') \<and> closed (batches s1 b')
               \<longrightarrow> (\<exists>s3. requestBatchDecryption h s2 a t2 b' r' = Inr s3)))"
proof -
  have frame: "owner s2 = owner s1 \<and> paused s2 = paused s1
      \<and> cooldownSeconds s2 = cooldownSeconds s1
      \<and> isProvider s2 a = isProvider s1 a
      \<and> lastSubmissionTime s2 a = lastSubmissionTime s1 a
      \<and> lastDecryptionRequestTime s2 a = lastDecryptionRequestTime s1 a
      \<and> (\<forall>b. exists (batches s2 b) = exists (batches s1 b)
             \<and> closed (batches s2 b) = closed (batches s1 b))" if "owner s1 = owner s"
    using run_same_gates [of xs a s1 h] others later that by simp
  have fits: "unat t1 + unat (cooldownSeconds s) < 2 ^ 256"
    if "unat t1 < 2 ^ 255" "unat (cooldownSeconds s) \<le> unat t1"
  proof -
    have "(2::nat) ^ 256 = 2 ^ 255 + 2 ^ 255" by simp
    with that show ?thesis by linarith
  qed
  have c_early: "contributeBandwidth h s2 a t2 b' v' = Inl CooldownActive"
    if first: "contributeBandwidth h s a t1 b v = Inr s1"
      and "unat t1 < 2 ^ 255" "unat t2 < unat t1 + unat (cooldownSeconds s)"
  proof -
    note d = contribute_done [OF first]
    from d frame have g: "owner s2 = owner s1" "paused s2 = paused s1"
      "cooldownSeconds s2 = cooldownSeconds s1" "isProvider s2 a = isProvider s1 a"
      "lastSubmissionTime s2 a = lastSubmissionTime s1 a"
      "lastDecryptionRequestTime s2 a = lastDecryptionRequestTime s1 a"
      "exists (batches s2 b') = exists (batches s1 b')"
      "closed (batches s2 b') = closed (batches s1 b')"
      by simp_all
    show ?thesis
      using contribute_in_cooldown [of s2 a t2 h b' v'] g d that(2,3) fits
      by simp
  qed
  have c_late: "\<exists>s3. contributeBandwidth h s2 a t2 b' v' = Inr s3"
    if first: "contributeBandwidth h s a t1 b v = Inr s1"
      and "unat t1 + unat (cooldownSeconds s) \<le> unat t2"
        "exists (batches s1 b')" "\<not> closed (batches s1 b')"
  proof -
    note d = contribute_done [OF first]
    from d frame have g: "owner s2 = owner s1" "paused s2 = paused s1"
      "cooldownSeconds s2 = cooldownSeconds s1" "isProvider s2 a = isProvider s1 a"
      "lastSubmissionTime s2 a = lastSubmissionTime s1 a"
      "lastDecryptionRequestTime s2 a = lastDecryptionRequestTime s1 a"
      "exists (batches s2 b') = exists (batches s1 b')"
      "closed (batches s2 b') = closed (batches s1 b')"
      by simp_all
    show ?thesis
      using contribute_after_cooldown [of s2 a t2 b' h v'] g d that(2,3,4)
      by simp
  qed
  have r_early: "requestBatchDecryption h s2 a t2 b' r' = Inl CooldownActive"
    if first: "requestBatchDecryption h s a t1 b r = Inr s1"
      and "unat t1 < 2 ^ 255" "unat t2 < unat t1 + unat (cooldownSeconds s)"
  proof -
    note d = request_done [OF first]
    from d frame have g: "owner s2 = owner s1" "paused s2 = paused s1"
      "cooldownSeconds s2 = cooldownSeconds s1" "isProvider s2 a = isProvider s1 a"
      "lastSubmissionTime s2 a = lastSubmissionTime s1 a"
      "lastDecryptionRequestTime s2 a = lastDecryptionRequestTime s1 a"
      "exists (batches s2 b') = exists (batches s1 b')"
      "closed (batches s2 b') = closed (batches s1 b')"
      by simp_all
    show ?thesis
      using request_in_cooldown [of a s2 t2 h b' r'] g d that(2,3) fits
      by auto
  qed
  have r_late: "\<exists>s3. requestBatchDecryption h s2 a t2 b' r' = Inr s3"
    if first: "requestBatchDecryption h s a t1 b r = Inr s1"
      and "unat t1 + unat (cooldownSeconds s) \<le> unat t2"
        "exists (batches s1 b')" "closed (batches s1 b')"
  proof -
    note d = request_done [OF first]
    from d frame have g: "owner s2 = owner s1" "paused s2 = paused s1"
      "cooldownSeconds s2 = cooldownSeconds s1" "isProvider s2 a = isProvider s1 a"
      "lastSubmissionTime s2 a = lastSubmissionTime s1 a"
      "lastDecryptionRequestTime s2 a = lastDecryptionRequestTime s1 a"
      "exists (batches s2 b') = exists (batches s1 b')"
      "closed (batches s2 b') = closed (batches s1 b')"
      by simp_all
    show ?thesis
      using request_after_cooldown [of a s2 t2 b' h r'] g d that(2,3,4)
      by auto
  qed
  from c_early c_late r_early r_late show ?thesis by blast
qed

theorem cooldown_between_two_calls_witness:
  "contributeBandwidth sample_host
      (run sample_host (constructor 1) (batch_opened @
        [\<lparr> msg_sender = 2, block_timestamp = 100, tx_call = ContributeBandwidth 7 10 \<rparr>,
         \<lparr> msg_sender = 3, block_timestamp = 100, tx_call = ContributeBandwidth 7 15 \<rparr>]))
      2 159 7 5 = Inl CooldownActive
   \<and> (\<exists>s3. contributeBandwidth sample_host
      (run sample_host (constructor 1) (batch_opened @
        [\<lparr> msg_sender = 2, block_timestamp = 100, tx_call = ContributeBandwidth 7 10 \<rparr>,
         \<lparr> msg_sender = 3, block_timestamp = 100, tx_call = ContributeBandwidth 7 15 \<rparr>]))
      2 160 7 5 = Inr s3)
   \<and> requestBatchDecryption sample_host
      (run sample_host (constructor 1) (decryption_requested @
        [\<lparr> msg_sender = 9, block_timestamp = 210, tx_call = MyCallback 4 [] [] \<rparr>]))
      1 259 7 1 = Inl CooldownActive
   \<and> (\<exists>s3. requestBatchDecryption sample_host
      (run sample_host (constructor 1) (decryption_requested @
        [\<lparr> msg_sender = 9, block_timestamp = 210, tx_call = MyCallback 4 [] [] \<rparr>]))
      1 260 7 1 = Inr s3)"
proof -
  let ?h = sample_host
  let ?o = "run ?h (constructor 1) batch_opened"
  let ?c = "run ?h (constructor 1) batch_closed"
  let ?x2 = "\<lparr> msg_sender = 2, block_timestamp = 100, tx_call = ContributeBandwidth 7 10 \<rparr>"
  let ?x3 = "\<lparr> msg_sender = 3, block_timestamp = 100, tx_call = ContributeBandwidth 7 15 \<rparr>"
  let ?xr = "\<lparr> msg_sender = 1, block_timestamp = 200, tx_call = RequestBatchDecryption 7 0 \<rparr>"
  let ?x9 = "\<lparr> msg_sender = 9, block_timestamp = 210, tx_call = MyCallback 4 [] [] \<rparr>"
  have c1: "contributeBandwidth ?h ?o 2 100 7 10 = Inr (after ?h ?o ?x2)"
    unfolding run_batch_opened
    by (simp add: after_def exec_def call_defs checked_add_def sample_host_def)
  have c_open: "exists (batches (after ?h ?o ?x2) 7) \<and> \<not> closed (batches (after ?h ?o ?x2) 7)"
    unfolding run_batch_opened
    by (simp add: after_def exec_def call_defs checked_add_def sample_host_def)
  have c_oth: "\<forall>x\<in>set [?x3]. msg_sender x \<noteq> 2 \<and> msg_sender x \<noteq> owner ?o"
    by (simp add: run_batch_opened)
  have c_run: "run ?h (constructor 1) (batch_opened @ [?x2, ?x3]) = run ?h (after ?h ?o ?x2) [?x3]"
    by (simp add: run_append)
  have c_cd: "cooldownSeconds ?o = 60"
    by (simp add: run_batch_opened)
  have r1: "requestBatchDecryption ?h ?c 1 200 7 0 = Inr (after ?h ?c ?xr)"
    unfolding run_batch_closed
    by (simp add: after_def exec_def call_defs checked_add_def sample_host_def Let_def)
  have r_closed: "exists (batches (after ?h ?c ?xr) 7) \<and> closed (batches (after ?h ?c ?xr) 7)"
    unfolding run_batch_closed
    by (simp add: after_def exec_def call_defs checked_add_def sample_host_def Let_def)
  have r_oth: "\<forall>x\<in>set [?x9]. msg_sender x \<noteq> 1 \<and> msg_sender x \<noteq> owner ?c"
    by (simp add: run_batch_closed)
  have r_run: "run ?h (constructor 1) (decryption_requested @ [?x9]) = run ?h (after ?h ?c ?xr) [?x9]"
    by (simp add: decryption_requested_def run_append)
  have r_cd: "cooldownSeconds ?c = 60"
    by (simp add: run_batch_closed)
  note ce = cooldown_between_two_calls [OF c_oth c_run, where ?t1.0 = 100 and b = 7 and v = 10
      and ?t2.0 = 159 and b' = 7 and v' = 5]
  note cl = cooldown_between_two_calls [OF c_oth c_run, where ?t1.0 = 100 and b = 7 and v = 10
      and ?t2.0 = 160 and b' = 7 and v' = 5]
  note re = cooldown_between_two_calls [OF r_oth r_run, where ?t1.0 = 200 and b = 7 and r = 0
      and ?t2.0 = 259 and b' = 7 and r' = 1]
  note rl = cooldown_between_two_calls [OF r_oth r_run, where ?t1.0 = 200 and b = 7 and r = 0
      and ?t2.0 = 260 and b' = 7 and r' = 1]
  have "contributeBandwidth ?h (run ?h (constructor 1) (batch_opened @ [?x2, ?x3])) 2 159 7 5
      = Inl CooldownActive"
    using ce c1 c_cd by simp
  moreover have "\<exists>s3. contributeBandwidth ?h
      (run ?h (constructor 1) (batch_opened @ [?x2, ?x3])) 2 160 7 5 = Inr s3"
    using cl c1 c_cd c_open by simp
  moreover have "requestBatchDecryption ?h
      (run ?h (constructor 1) (decryption_requested @ [?x9])) 1 259 7 1 = Inl CooldownActive"
    using re r1 r_cd by simp
  moreover have "\<exists>s3. requestBatchDecryption ?h
      (run ?h (constructor 1) (decryption_requested @ [?x9])) 1 260 7 1 = Inr s3"
    using rl r1 r_cd r_closed by simp
  ultimately show ?thesis by blast
qed

section \<open>Batches\<close>

text \<open>
  Claim C5. A contribution to a batch that does not exist or is closed always reverts,
  whoever sends it and whenever: the storage after it, and so the accumulator of the
  batch, is what it was before. The revert is \<open>BatchClosedOrDoesNotExist\<close> (the
  specification's \<open>BatchUnavailable\<close>) for every caller who gets as far as the check of
  the batch: a provider, the contract not paused, the cooldown over.
\<close>

theorem closed_batch_rejects_contribution:
  assumes "\<not> exists (batches s b) \<or> closed (batches s b)"
  shows "(\<exists>e. contributeBandwidth h s a t b v = Inl e)
       \<and> after h s \<lparr> msg_sender = a, block_timestamp = t, tx_call = ContributeBandwidth b v \<rparr> = s
       \<and> (isProvider s a \<and> \<not> paused s
            \<and> unat (lastSubmissionTime s a) + unat (cooldownSeconds s) \<le> unat t
          \<longrightarrow> contributeBandwidth h s a t b v = Inl BatchClosedOrDoesNotExist)"
proof -
  have rej: "\<exists>e. contributeBandwidth h s a t b v = Inl e"
    using assms by (auto simp: contributeBandwidth_def batchExists_def split: option.splits)
  have same: "after h s \<lparr> msg_sender = a, block_timestamp = t,
      tx_call = ContributeBandwidth b v \<rparr> = s"
    using rej by (auto simp: after_def exec_def)
  have err: "contributeBandwidth h s a t b v = Inl BatchClosedOrDoesNotExist"
    if "isProvider s a" "\<not> paused s"
      "unat (lastSubmissionTime s a) + unat (cooldownSeconds s) \<le> unat t"
  proof -
    have "\<not> t < lastSubmissionTime s a + cooldownSeconds s"
      using that(3) unsigned_less [of t, where 'a = nat]
      by (simp add: word_less_nat_alt unat_word_ariths)
    with that assms show ?thesis
      by (auto simp: contributeBandwidth_def batchExists_def checked_add_fits)
  qed
  from rej same err show ?thesis by blast
qed

theorem closed_batch_rejects_contribution_witness:
  "closed (batches (run sample_host (constructor 1) batch_closed) 7)
   \<and> contributeBandwidth sample_host (run sample_host (constructor 1) batch_closed)
        2 500 7 10 = Inl BatchClosedOrDoesNotExist
   \<and> after sample_host (run sample_host (constructor 1) batch_closed)
        \<lparr> msg_sender = 2, block_timestamp = 500, tx_call = ContributeBandwidth 7 10 \<rparr>
      = run sample_host (constructor 1) batch_closed
   \<and> \<not> exists (batches (run sample_host (constructor 1) batch_closed) 8)
   \<and> contributeBandwidth sample_host (run sample_host (constructor 1) batch_closed)
        2 500 8 10 = Inl BatchClosedOrDoesNotExist"
proof -
  let ?s = "run sample_host (constructor 1) batch_closed"
  have c7: "\<not> exists (batches ?s 7) \<or> closed (batches ?s 7)"
    and c8: "\<not> exists (batches ?s 8) \<or> closed (batches ?s 8)"
    and cl: "closed (batches ?s 7)" and ne: "\<not> exists (batches ?s 8)"
    by (simp_all add: run_batch_closed no_batch_def)
  have gate: "isProvider ?s 2 \<and> \<not> paused ?s
      \<and> unat (lastSubmissionTime ?s 2) + unat (cooldownSeconds ?s) \<le> unat (500 :: uint256)"
    by (simp add: run_batch_closed)
  show ?thesis
    using closed_batch_rejects_contribution [OF c7, of sample_host 2 500 10]
      closed_batch_rejects_contribution [OF c8, of sample_host 2 500 10] gate cl ne
    by blast
qed

lemma after_closed_exists:
  "\<forall>b. closed (batches s b) \<longrightarrow> exists (batches s b) \<Longrightarrow>
   \<forall>b. closed (batches (after h s x) b) \<longrightarrow> exists (batches (after h s x) b)"
  by (cases "tx_call x")
     (auto simp: after_def exec_def call_defs Let_def split: if_splits option.splits)

lemma reachable_closed_exists:
  "reachable h s \<Longrightarrow> \<forall>b. closed (batches s b) \<longrightarrow> exists (batches s b)"
  by (induction rule: reachable.induct) (simp_all add: constructor_def after_closed_exists)

lemma after_batch:
  assumes "closed (batches s b) \<longrightarrow> exists (batches s b)"
  shows "(exists (batches s b) \<longrightarrow> exists (batches (after h s x) b))
       \<and> (closed (batches s b) \<longrightarrow> closed (batches (after h s x) b))
       \<and> (totalEncryptedBandwidth (batches (after h s x) b)
             \<noteq> totalEncryptedBandwidth (batches s b)
           \<longrightarrow> \<not> closed (batches s b) \<and> \<not> closed (batches (after h s x) b))"
  using assms
  by (cases "tx_call x")
     (auto simp: after_def exec_def call_defs Let_def split: if_splits option.splits)

text \<open>
  Claim C6. In every storage the contract can reach and for every transaction: a batch
  that exists still exists afterwards, and \<open>openBatch\<close> of its id reverts (with
  \<open>InvalidParameter\<close> for the owner while not paused); a closed batch is still closed
  afterwards; and a transaction that changes the accumulator of a batch finds the batch
  not closed and leaves it so.
\<close>

theorem batch_invariants:
  assumes "reachable h s"
  shows "(exists (batches s b) \<longrightarrow>
            exists (batches (after h s x) b)
          \<and> (\<exists>e. openBatch h s a b = Inl e)
          \<and> (a = owner s \<and> \<not> paused s \<longrightarrow> openBatch h s a b = Inl InvalidParameter))
       \<and> (closed (batches s b) \<longrightarrow> closed (batches (after h s x) b))
       \<and> (totalEncryptedBandwidth (batches (after h s x) b)
             \<noteq> totalEncryptedBandwidth (batches s b)
           \<longrightarrow> \<not> closed (batches s b) \<and> \<not> closed (batches (after h s x) b))"
proof -
  have inv: "closed (batches s b) \<longrightarrow> exists (batches s b)"
    using reachable_closed_exists [OF assms] by blast
  have opn: "exists (batches s b) \<longrightarrow>
      (\<exists>e. openBatch h s a b = Inl e)
      \<and> (a = owner s \<and> \<not> paused s \<longrightarrow> openBatch h s a b = Inl InvalidParameter)"
    by (simp add: openBatch_def)
  from after_batch [OF inv, of h x] opn show ?thesis by blast
qed

theorem batch_invariants_witness:
  "reachable sample_host (run sample_host (constructor 1) batch_closed)
   \<and> closed (batches (after sample_host (run sample_host (constructor 1) batch_closed)
        \<lparr> msg_sender = 1, block_timestamp = 160, tx_call = OpenBatch 7 \<rparr>) 7)
   \<and> openBatch sample_host (run sample_host (constructor 1) batch_closed) 1 7
        = Inl InvalidParameter
   \<and> totalEncryptedBandwidth
        (batches (after sample_host (run sample_host (constructor 1) batch_opened)
          \<lparr> msg_sender = 2, block_timestamp = 100, tx_call = ContributeBandwidth 7 10 \<rparr>) 7)
        \<noteq> totalEncryptedBandwidth (batches (run sample_host (constructor 1) batch_opened) 7)
   \<and> \<not> closed (batches (run sample_host (constructor 1) batch_opened) 7)"
proof -
  let ?c = "run sample_host (constructor 1) batch_closed"
  let ?o = "run sample_host (constructor 1) batch_opened"
  let ?x = "\<lparr> msg_sender = 2, block_timestamp = 100, tx_call = ContributeBandwidth 7 10 \<rparr>"
  have rc: "reachable sample_host ?c" and ro: "reachable sample_host ?o"
    by (rule reachable_run, rule reachable.deployed)+
  have flags: "exists (batches ?c 7)" "closed (batches ?c 7)" "1 = owner ?c" "\<not> paused ?c"
    by (simp_all add: run_batch_closed)
  have moved: "totalEncryptedBandwidth (batches (after sample_host ?o ?x) 7)
      \<noteq> totalEncryptedBandwidth (batches ?o 7)"
    unfolding run_batch_opened
    by (simp add: after_def exec_def contributeBandwidth_def batchExists_def
        checked_add_def sample_host_def)
  show ?thesis
    using rc flags moved
      batch_invariants [OF rc, of 7
        "\<lparr> msg_sender = 1, block_timestamp = 160, tx_call = OpenBatch 7 \<rparr>" 1]
      batch_invariants [OF ro, of 7 ?x 1]
    by blast
qed

section \<open>The decryption callback\<close>

subsection \<open>Replay\<close>

lemma after_processed:
  "processed (decryptionContexts s r) \<Longrightarrow> \<not> issues r (tx_call x) \<Longrightarrow>
   processed (decryptionContexts (after h s x) r)"
  by (cases "tx_call x")
     (auto simp: after_def exec_def call_defs Let_def split: if_splits option.splits)

lemma run_processed:
  "processed (decryptionContexts s r) \<Longrightarrow> \<forall>x\<in>set xs. \<not> issues r (tx_call x) \<Longrightarrow>
   processed (decryptionContexts (run h s xs) r)"
  by (induction xs arbitrary: s) (simp_all add: after_processed)

lemma callback_done:
  "myCallback h s a r c p = Inr s1 \<Longrightarrow>
   \<not> processed (decryptionContexts s r) \<and> processed (decryptionContexts s1 r)"
  by (auto simp: myCallback_def Let_def split: if_splits option.splits)

lemma callback_replayed:
  "processed (decryptionContexts s r) \<Longrightarrow> callback_of r (tx_call x) \<Longrightarrow> isl (exec h s x)"
  by (cases "tx_call x") (simp_all add: exec_def myCallback_def)

lemma callback_accepted:
  "callback_of r (tx_call x) \<Longrightarrow> \<not> isl (exec h s x) \<Longrightarrow>
   processed (decryptionContexts (after h s x) r)"
  by (cases "tx_call x")
     (auto simp: after_def exec_def myCallback_def Let_def split: if_splits option.splits)

lemma no_callback_accepted_once_processed:
  "processed (decryptionContexts s r) \<Longrightarrow> \<forall>x\<in>set xs. \<not> issues r (tx_call x) \<Longrightarrow>
   accepted_callbacks h r s xs = 0"
proof (induction xs arbitrary: s)
  case Nil
  show ?case by simp
next
  case (Cons x xs)
  have "processed (decryptionContexts (after h s x) r)"
    using Cons.prems by (simp add: after_processed)
  with Cons show ?case
    by (auto simp: callback_replayed)
qed

lemma accepted_callbacks_le_1:
  "\<forall>x\<in>set xs. \<not> issues r (tx_call x) \<Longrightarrow> accepted_callbacks h r s xs \<le> 1"
proof (induction xs arbitrary: s)
  case Nil
  show ?case by simp
next
  case (Cons x xs)
  show ?case
  proof (cases "callback_of r (tx_call x) \<and> \<not> isl (exec h s x)")
    case True
    then have "processed (decryptionContexts (after h s x) r)"
      by (simp add: callback_accepted)
    then have "accepted_callbacks h r (after h s x) xs = 0"
      using Cons.prems by (simp add: no_callback_accepted_once_processed)
    with True show ?thesis by simp
  next
    case False
    with Cons show ?thesis by auto
  qed
qed

text \<open>
  Claim C1. Take any storage and any transactions among which the library issues the
  request id \<open>r\<close> to no new request (it issues every id once). At most one callback for
  \<open>r\<close> among them is accepted. And once a callback for \<open>r\<close> has been accepted, which takes
  the request from not processed to processed, the request is processed after all of
  them, and a callback for \<open>r\<close> then reverts with \<open>ReplayAttempt\<close> whoever sends it and
  whatever cleartexts and proof it carries, the ones the signature check accepts
  included; the storage after it is the storage before it.
\<close>

theorem callback_at_most_once:
  assumes unique: "\<forall>x\<in>set xs. \<not> issues r (tx_call x)"
  shows "accepted_callbacks h r s xs \<le> 1
       \<and> (myCallback h s a r c p = Inr s1 \<longrightarrow>
            \<not> processed (decryptionContexts s r)
            \<and> processed (decryptionContexts s1 r)
            \<and> processed (decryptionContexts (run h s1 xs) r)
            \<and> myCallback h (run h s1 xs) a' r c' p' = Inl ReplayAttempt
            \<and> after h (run h s1 xs)
                 \<lparr> msg_sender = a', block_timestamp = t, tx_call = MyCallback r c' p' \<rparr>
               = run h s1 xs)"
proof -
  have once: "accepted_callbacks h r s xs \<le> 1"
    using unique by (rule accepted_callbacks_le_1)
  have replay: "\<not> processed (decryptionContexts s r)
      \<and> processed (decryptionContexts s1 r)
      \<and> processed (decryptionContexts (run h s1 xs) r)
      \<and> myCallback h (run h s1 xs) a' r c' p' = Inl ReplayAttempt
      \<and> after h (run h s1 xs)
           \<lparr> msg_sender = a', block_timestamp = t, tx_call = MyCallback r c' p' \<rparr>
         = run h s1 xs"
    if first: "myCallback h s a r c p = Inr s1"
  proof -
    note d = callback_done [OF first]
    have p2: "processed (decryptionContexts (run h s1 xs) r)"
      using run_processed [OF _ unique, of s1 h] d by simp
    then have rej: "myCallback h (run h s1 xs) a' r c' p' = Inl ReplayAttempt"
      by (simp add: myCallback_def)
    then have "after h (run h s1 xs)
        \<lparr> msg_sender = a', block_timestamp = t, tx_call = MyCallback r c' p' \<rparr> = run h s1 xs"
      by (simp add: after_def exec_def)
    with d p2 rej show ?thesis by simp
  qed
  from once replay show ?thesis by blast
qed

theorem callback_at_most_once_witness:
  "(\<exists>s1. myCallback sample_host (run sample_host (constructor 1) decryption_requested)
       9 0 cleartext_25 [1] = Inr s1)
   \<and> checkSignatures sample_host 0 cleartext_25 [1]
   \<and> myCallback sample_host
       (run sample_host (constructor 1) (decryption_requested @
          [\<lparr> msg_sender = 9, block_timestamp = 210, tx_call = MyCallback 0 cleartext_25 [1] \<rparr>,
           \<lparr> msg_sender = 1, block_timestamp = 260, tx_call = RequestBatchDecryption 7 1 \<rparr>]))
       9 0 cleartext_25 [1] = Inl ReplayAttempt
   \<and> accepted_callbacks sample_host 0 (run sample_host (constructor 1) decryption_requested)
        [\<lparr> msg_sender = 9, block_timestamp = 210, tx_call = MyCallback 0 cleartext_25 [1] \<rparr>,
         \<lparr> msg_sender = 9, block_timestamp = 220, tx_call = MyCallback 0 cleartext_25 [1] \<rparr>]
       = 1"
proof -
  let ?h = sample_host
  let ?s = "run ?h (constructor 1) decryption_requested"
  let ?cb = "\<lparr> msg_sender = 9, block_timestamp = 210, tx_call = MyCallback 0 cleartext_25 [1] \<rparr>"
  let ?cb2 = "\<lparr> msg_sender = 9, block_timestamp = 220, tx_call = MyCallback 0 cleartext_25 [1] \<rparr>"
  let ?rq = "\<lparr> msg_sender = 1, block_timestamp = 260, tx_call = RequestBatchDecryption 7 1 \<rparr>"
  have first: "myCallback ?h ?s 9 0 cleartext_25 [1] = Inr (after ?h ?s ?cb)"
    by (simp add: after_def exec_def sample_callback)
  have unique: "\<forall>x\<in>set [?rq]. \<not> issues 0 (tx_call x)"
    by simp
  have unique2: "\<forall>x\<in>set [?cb, ?cb2]. \<not> issues 0 (tx_call x)"
    by simp
  have later: "run ?h (constructor 1) (decryption_requested @ [?cb, ?rq])
      = run ?h (after ?h ?s ?cb) [?rq]"
    by (simp add: run_append)
  have sig: "checkSignatures ?h 0 cleartext_25 [1]"
    by (simp add: sample_host_def)
  have ok: "\<not> isl (exec ?h ?s ?cb)"
    by (simp add: exec_def sample_callback)
  have "accepted_callbacks ?h 0 ?s [?cb, ?cb2] \<le> 1"
    using callback_at_most_once [OF unique2] by blast
  then have count: "accepted_callbacks ?h 0 ?s [?cb, ?cb2] = 1"
    using ok by (simp split: if_splits)
  show ?thesis
    using callback_at_most_once [OF unique, of ?h ?s 9 cleartext_25 "[1]" "after ?h ?s ?cb"
        9 cleartext_25 "[1]" 300] first sig later count
    by simp
qed

subsection \<open>The commitment\<close>

text \<open>
  In every storage the contract can reach, a stored commitment was taken of a closed
  batch, whose accumulator no function changes. So, provided the hash never yields the
  zero word, a commitment that differs from the recomputed one belongs to a request that
  is not processed: the replay check, which comes first, never hides the difference.
\<close>

lemma after_commitments_bound:
  assumes nz: "\<forall>bs. keccak256_encode h bs (this h) \<noteq> 0"
    and inv: "commitments_bound h s"
  shows "commitments_bound h (after h s x)"
proof -
  have nz': "\<And>cts. hashCiphertexts h cts \<noteq> 0"
    using nz by (simp add: hashCiphertexts_def)
  show ?thesis
    using inv nz'
    by (cases "tx_call x")
     (auto simp: commitments_bound_def currentStateHash_def after_def exec_def call_defs Let_def
        split: if_splits option.splits)
qed

lemma reachable_commitments_bound:
  "reachable h s \<Longrightarrow> \<forall>bs. keccak256_encode h bs (this h) \<noteq> 0 \<Longrightarrow> commitments_bound h s"
proof (induction rule: reachable.induct)
  case (deployed a)
  show ?case by (simp add: commitments_bound_def constructor_def)
next
  case (step s x)
  then show ?case by (simp add: after_commitments_bound)
qed

lemma reachable_mismatch_pending:
  assumes "reachable h s" and "\<forall>bs. keccak256_encode h bs (this h) \<noteq> 0"
    and "currentStateHash h s r \<noteq> stateHash (decryptionContexts s r)"
  shows "\<not> processed (decryptionContexts s r)"
  using reachable_commitments_bound [OF assms(1,2)] assms(3)
  by (auto simp: commitments_bound_def split: if_splits)

text \<open>
  Claim C2. A callback whose recomputed commitment differs from the stored one reverts
  with \<open>StateMismatch\<close>, before the proof is looked at and before anything is decoded:
  the storage is what it was, the request is still not processed and no event is added
  to the log. This holds for a request that is not yet processed in any storage, and for
  every request in a storage the contract can reach with a hash that never yields the
  zero word.
\<close>

theorem stale_commitment_rejected:
  assumes differs: "currentStateHash h s r \<noteq> stateHash (decryptionContexts s r)"
    and pending: "\<not> processed (decryptionContexts s r)
      \<or> (reachable h s \<and> (\<forall>bs. keccak256_encode h bs (this h) \<noteq> 0))"
  shows "myCallback h s a r c p = Inl StateMismatch
       \<and> after h s \<lparr> msg_sender = a, block_timestamp = t, tx_call = MyCallback r c p \<rparr> = s
       \<and> \<not> processed (decryptionContexts
             (after h s \<lparr> msg_sender = a, block_timestamp = t, tx_call = MyCallback r c p \<rparr>) r)
       \<and> events (after h s \<lparr> msg_sender = a, block_timestamp = t, tx_call = MyCallback r c p \<rparr>)
           = events s"
proof -
  have np: "\<not> processed (decryptionContexts s r)"
    using pending reachable_mismatch_pending [OF _ _ differs] by blast
  have rej: "myCallback h s a r c p = Inl StateMismatch"
    using np differs by (simp add: myCallback_def currentStateHash_def)
  then have "after h s \<lparr> msg_sender = a, block_timestamp = t, tx_call = MyCallback r c p \<rparr> = s"
    by (simp add: after_def exec_def)
  with rej np show ?thesis by simp
qed

text \<open>
  At two inputs. First the request 0 of the sample history, pending, its commitment 12391
  stored when it was requested, against a batch 7 whose accumulator has since changed:
  the recomputed commitment is 12393 and the callback reverts with \<open>StateMismatch\<close>
  although its proof is one the signature check accepts. Then, in the storage the
  sample history itself leads to, the id 4, under which nothing is stored.
\<close>

theorem stale_commitment_rejected_witness:
  "stateHash (decryptionContexts accumulator_changed 0) = 12391
   \<and> batchId (decryptionContexts accumulator_changed 0) = 7
   \<and> currentStateHash sample_host accumulator_changed 0 = 12393
   \<and> \<not> processed (decryptionContexts accumulator_changed 0)
   \<and> checkSignatures sample_host 0 cleartext_25 [1]
   \<and> myCallback sample_host accumulator_changed 9 0 cleartext_25 [1] = Inl StateMismatch
   \<and> after sample_host accumulator_changed
        \<lparr> msg_sender = 9, block_timestamp = 210, tx_call = MyCallback 0 cleartext_25 [1] \<rparr>
       = accumulator_changed
   \<and> reachable sample_host (run sample_host (constructor 1) decryption_requested)
   \<and> currentStateHash sample_host (run sample_host (constructor 1) decryption_requested) 4
       \<noteq> stateHash (decryptionContexts (run sample_host (constructor 1) decryption_requested) 4)
   \<and> myCallback sample_host (run sample_host (constructor 1) decryption_requested)
       9 4 cleartext_25 [1] = Inl StateMismatch"
proof -
  let ?h = sample_host
  let ?s = "run ?h (constructor 1) decryption_requested"
  have stored: "stateHash (decryptionContexts accumulator_changed 0) = 12391"
    and batch: "batchId (decryptionContexts accumulator_changed 0) = 7"
    and np: "\<not> processed (decryptionContexts accumulator_changed 0)"
    by (simp_all add: accumulator_changed_def run_decryption_requested)
  have current: "currentStateHash ?h accumulator_changed 0 = 12393"
    unfolding accumulator_changed_def run_decryption_requested
    by (simp add: currentStateHash_def hashCiphertexts_def sample_host_def)
  have differs: "currentStateHash ?h accumulator_changed 0
      \<noteq> stateHash (decryptionContexts accumulator_changed 0)"
    by (simp add: stored current)
  have pending: "\<not> processed (decryptionContexts accumulator_changed 0)
      \<or> (reachable ?h accumulator_changed
          \<and> (\<forall>bs. keccak256_encode ?h bs (this ?h) \<noteq> 0))"
    using np by blast
  have sig: "checkSignatures ?h 0 cleartext_25 [1]"
    by (simp add: sample_host_def)
  have reach: "reachable ?h ?s"
    by (rule reachable_run, rule reachable.deployed)
  have differs4: "currentStateHash ?h ?s 4 \<noteq> stateHash (decryptionContexts ?s 4)"
    unfolding run_decryption_requested
    by (simp add: currentStateHash_def no_context_def no_batch_def hashCiphertexts_def
        sample_host_def)
  have pending4: "\<not> processed (decryptionContexts ?s 4)
      \<or> (reachable ?h ?s \<and> (\<forall>bs. keccak256_encode ?h bs (this ?h) \<noteq> 0))"
    using reach sample_hash_nonzero by blast
  show ?thesis
    using stale_commitment_rejected [OF differs pending, of 9 cleartext_25 "[1]" 210]
      stale_commitment_rejected [OF differs4 pending4, of 9 cleartext_25 "[1]" 210]
      stored batch current np sig reach differs4
    by simp
qed

subsection \<open>Request ids that were never issued\<close>

text \<open>
  Claim C3, as it is stated, fails. The contract keeps no record of which ids were
  issued: an id never stored reads as the zero context, whose \<open>processed\<close> is false, so
  the replay check lets it pass. After the sample history the id 4 was never issued; a
  callback for it reverts with \<open>StateMismatch\<close>, not with \<open>ReplayAttempt\<close>.
\<close>

theorem unknown_request_reverts_state_mismatch:
  "decryptionContexts (run sample_host (constructor 1) decryption_requested) 4 = no_context
   \<and> myCallback sample_host (run sample_host (constructor 1) decryption_requested)
        9 4 cleartext_25 [1] = Inl StateMismatch
   \<and> myCallback sample_host (run sample_host (constructor 1) decryption_requested)
        9 4 cleartext_25 [1] \<noteq> Inl ReplayAttempt"
  unfolding run_decryption_requested
  by (simp add: myCallback_def no_context_def no_batch_def hashCiphertexts_def sample_host_def)

text \<open>
  Claim C3, amended. A callback for an id under which nothing is stored never reverts
  with \<open>ReplayAttempt\<close>. It is checked against the zero context: the batch 0 and the zero
  commitment. Where the hash of the present accumulator of batch 0 is not the zero word
  it reverts with \<open>StateMismatch\<close>.
\<close>

theorem unknown_request_checked_against_zero:
  assumes "decryptionContexts s r = no_context"
  shows "myCallback h s a r c p \<noteq> Inl ReplayAttempt
       \<and> (hashCiphertexts h [totalEncryptedBandwidth (batches s 0)] \<noteq> 0
            \<longrightarrow> myCallback h s a r c p = Inl StateMismatch)"
  using assms
  by (simp add: myCallback_def no_context_def Let_def split: option.splits)

theorem unknown_request_checked_against_zero_witness:
  "decryptionContexts (constructor 1) 5 = no_context
   \<and> hashCiphertexts sample_host [totalEncryptedBandwidth (batches (constructor 1) 0)] \<noteq> 0
   \<and> myCallback sample_host (constructor 1) 9 5 cleartext_25 [1] = Inl StateMismatch"
proof -
  have u: "decryptionContexts (constructor 1) 5 = no_context"
    by (simp add: constructor_def no_context_def)
  have nz: "hashCiphertexts sample_host [totalEncryptedBandwidth (batches (constructor 1) 0)] \<noteq> 0"
    by (simp add: constructor_def hashCiphertexts_def sample_host_def)
  show ?thesis
    using unknown_request_checked_against_zero [OF u, of sample_host 9 cleartext_25 "[1]"] u nz
    by simp
qed

subsection \<open>The caller\<close>

text \<open>
  Claim C4, as it is stated, fails. \<open>myCallback\<close> is \<open>public\<close>, has no modifier and does not
  read \<open>msg.sender\<close>. After the sample history the address 9, which is neither the owner
  nor a provider, calls it for the pending request 0 and is accepted: the request is
  processed afterwards. The provider 2 would have been accepted as well.
\<close>

theorem callback_accepted_from_any_caller:
  "9 \<noteq> owner (run sample_host (constructor 1) decryption_requested)
   \<and> \<not> isProvider (run sample_host (constructor 1) decryption_requested) 9
   \<and> \<not> isl (myCallback sample_host (run sample_host (constructor 1) decryption_requested)
        9 0 cleartext_25 [1])
   \<and> processed (decryptionContexts
        (after sample_host (run sample_host (constructor 1) decryption_requested)
          \<lparr> msg_sender = 9, block_timestamp = 210, tx_call = MyCallback 0 cleartext_25 [1] \<rparr>) 0)
   \<and> \<not> isl (myCallback sample_host (run sample_host (constructor 1) decryption_requested)
        2 0 cleartext_25 [1])"
  by (simp add: after_def exec_def sample_callback) (simp add: run_decryption_requested)

text \<open>
  Claim C4, amended. The callback returns the same for every caller. It is accepted
  exactly when the request is not yet processed, the recomputed commitment equals the
  stored one, the signature check of the library accepts the request id, the cleartexts
  and the proof, and the cleartexts are at least 32 bytes long.
\<close>

theorem callback_ignores_caller:
  "myCallback h s a r c p = myCallback h s a' r c p
   \<and> ((\<exists>s'. myCallback h s a r c p = Inr s') \<longleftrightarrow>
        \<not> processed (decryptionContexts s r)
        \<and> currentStateHash h s r = stateHash (decryptionContexts s r)
        \<and> checkSignatures h r c p
        \<and> 32 \<le> length c)"
  by (auto simp: myCallback_def currentStateHash_def abi_decode_uint256_def Let_def
      split: if_splits option.splits)

theorem callback_ignores_caller_witness:
  "myCallback sample_host (run sample_host (constructor 1) decryption_requested)
      9 0 cleartext_25 [1]
   = myCallback sample_host (run sample_host (constructor 1) decryption_requested)
      1 0 cleartext_25 [1]
   \<and> (\<exists>s'. myCallback sample_host (run sample_host (constructor 1) decryption_requested)
      9 0 cleartext_25 [1] = Inr s')"
  using callback_ignores_caller [of sample_host
      "run sample_host (constructor 1) decryption_requested" 9 0 cleartext_25 "[1]" 1]
  by (simp add: sample_callback)

end
